theory Spec2Isabelle
  imports Main "HOL-Library.Multiset" "HOL-Library.Sublist"
begin

section \<open>Syntax trees\<close>

text \<open>
  The chunker (\<^verbatim>\<open>src/core/indexing/chunk/java/code.ts\<close>) works on the tree that
  the external parser returns. Of a \<^verbatim>\<open>SyntaxNode\<close> it reads \<^verbatim>\<open>type\<close>,
  \<^verbatim>\<open>text\<close>, \<^verbatim>\<open>startIndex\<close>, \<^verbatim>\<open>endIndex\<close>, \<^verbatim>\<open>startPosition.row\<close>,
  \<^verbatim>\<open>endPosition.row\<close>, \<^verbatim>\<open>children\<close> and \<^verbatim>\<open>parent\<close>: the fields \<open>nodeType\<close>,
  \<open>nodeText\<close>, \<open>startIndex\<close>, \<open>endIndex\<close>, \<open>startRow\<close>, \<open>endRow\<close> and \<open>children\<close>.
  A source text is a \<open>string\<close>, one \<open>char\<close> for each code unit.
\<close>

datatype SyntaxNode =
  SyntaxNode
    (nodeType: string)
    (nodeText: string)
    (startIndex: nat)
    (endIndex: nat)
    (startRow: nat)
    (endRow: nat)
    (children: "SyntaxNode list")

text \<open>
  \<^verbatim>\<open>node.parent\<close>: a node is passed together with the chain of its ancestors, the
  nearest first; the root is the node whose chain is empty.
\<close>

type_synonym ancestors = "SyntaxNode list"

subsection \<open>\<^verbatim>\<open>NODE_TYPES\<close>\<close>

definition PACKAGE :: string where "PACKAGE = ''package_declaration''"
definition CLASS :: string where "CLASS = ''class_declaration''"
definition INTERFACE :: string where "INTERFACE = ''interface_declaration''"
definition METHOD :: string where "METHOD = ''method_declaration''"
definition CONSTRUCTOR :: string where "CONSTRUCTOR = ''constructor_declaration''"
definition ENUM :: string where "ENUM = ''enum_declaration''"
definition ANNOTATION :: string where "ANNOTATION = ''annotation_type_declaration''"
definition CLASS_BODY :: string where "CLASS_BODY = ''class_body''"
definition INTERFACE_BODY :: string where "INTERFACE_BODY = ''interface_body''"
definition IDENTIFIER :: string where "IDENTIFIER = ''identifier''"
definition PARAMETERS :: string where "PARAMETERS = ''formal_parameters''"
definition BLOCK :: string where "BLOCK = ''block''"

subsection \<open>Chunks\<close>

datatype JavaChunkType = class_definition | method_definition

record JavaChunkWithoutID =
  content :: string
  startLine :: nat
  endLine :: nat
  methodIdentifier :: "string option"
  chunkType :: JavaChunkType

record MethodCollapsed =
  start :: int
  end' :: int
  collapsedStr :: string

section \<open>JavaScript strings\<close>

text \<open>\<^verbatim>\<open>String.prototype.slice(a, b)\<close> and \<^verbatim>\<open>slice(a)\<close>: a negative index counts
  from the end, and both are clamped to the string.\<close>

definition js_index :: "string \<Rightarrow> int \<Rightarrow> nat" where
  "js_index s i =
     (if i < 0 then nat (max (int (length s) + i) 0) else min (nat i) (length s))"

definition js_slice :: "string \<Rightarrow> int \<Rightarrow> int \<Rightarrow> string" where
  "js_slice s a b = (let from = js_index s a; to = js_index s b
                     in take (to - from) (drop from s))"

definition js_slice_from :: "string \<Rightarrow> int \<Rightarrow> string" where
  "js_slice_from s a = drop (js_index s a) s"

text \<open>\<^verbatim>\<open>String.prototype.replace(pattern, replacement)\<close> with a string pattern: the
  first occurrence only.\<close>

fun js_replace :: "string \<Rightarrow> string \<Rightarrow> string \<Rightarrow> string" where
  "js_replace pat rep [] = (if pat = [] then rep else [])"
| "js_replace pat rep (c # cs) =
     (if take (length pat) (c # cs) = pat then rep @ drop (length pat) (c # cs)
      else c # js_replace pat rep cs)"

text \<open>\<^verbatim>\<open>String.prototype.trim()\<close>: the white space and line terminators of
  ECMAScript that are code units below 256.\<close>

definition isWhiteSpace :: "char \<Rightarrow> bool" where
  "isWhiteSpace c = (c \<in> set [CHR 0x09, CHR 0x0A, CHR 0x0B, CHR 0x0C, CHR 0x0D, CHR 0x20, CHR 0xA0])"

definition js_trim :: "string \<Rightarrow> string" where
  "js_trim s = rev (dropWhile isWhiteSpace (rev (dropWhile isWhiteSpace s)))"

text \<open>Number to string in a template literal, for the row numbers.\<close>

definition digit_char :: "nat \<Rightarrow> char" where
  "digit_char d = char_of (48 + d)"

fun string_of_nat :: "nat \<Rightarrow> string" where
  "string_of_nat n =
     (if n < 10 then [digit_char n] else string_of_nat (n div 10) @ [digit_char (n mod 10)])"

section \<open>The chunker\<close>

subsection \<open>Helpers\<close>

fun findNodeByType :: "SyntaxNode \<Rightarrow> string \<Rightarrow> SyntaxNode option"
  and findNodeByType_children :: "SyntaxNode list \<Rightarrow> string \<Rightarrow> SyntaxNode option" where
  "findNodeByType (SyntaxNode ty tx si ei sr er cs) t =
     (if ty = t then Some (SyntaxNode ty tx si ei sr er cs) else findNodeByType_children cs t)"
| "findNodeByType_children [] t = None"
| "findNodeByType_children (child # rest) t =
     (case findNodeByType child t of
        Some result \<Rightarrow> Some result
      | None \<Rightarrow> findNodeByType_children rest t)"

definition isClassOrInterface :: "SyntaxNode \<Rightarrow> bool" where
  "isClassOrInterface node = (CLASS = nodeType node \<or> INTERFACE = nodeType node)"

definition isClassOrInterfaceBody :: "SyntaxNode \<Rightarrow> bool" where
  "isClassOrInterfaceBody node = (CLASS_BODY = nodeType node \<or> INTERFACE_BODY = nodeType node)"

definition isCollapsedNode :: "SyntaxNode \<Rightarrow> bool" where
  "isCollapsedNode node = (nodeType node = METHOD)"

subsection \<open>Class names\<close>

text \<open>The \<^verbatim>\<open>while (current.parent)\<close> loop of \<^verbatim>\<open>getPackageName\<close>.\<close>

fun rootOf :: "ancestors \<Rightarrow> SyntaxNode \<Rightarrow> SyntaxNode" where
  "rootOf [] current = current"
| "rootOf (parent # further) current = rootOf further parent"

definition getPackageName :: "ancestors \<Rightarrow> SyntaxNode \<Rightarrow> string" where
  "getPackageName anc node =
     (case findNodeByType (rootOf anc node) PACKAGE of
        Some packageNode \<Rightarrow>
          js_trim (js_replace '';'' '''' (js_replace ''package '' '''' (nodeText packageNode)))
      | None \<Rightarrow> '''')"

definition getSimpleClassName :: "SyntaxNode \<Rightarrow> string" where
  "getSimpleClassName node =
     (case findNodeByType node IDENTIFIER of
        Some classNameNode \<Rightarrow> nodeText classNameNode
      | None \<Rightarrow> '''')"

text \<open>The optional \<^verbatim>\<open>parentClassName\<close> is an \<open>option\<close>; an empty string is as falsy
  as \<^verbatim>\<open>undefined\<close>.\<close>

definition getFullClassName :: "ancestors \<Rightarrow> SyntaxNode \<Rightarrow> string option \<Rightarrow> string" where
  "getFullClassName anc node parentClassName =
     (let packageName = getPackageName anc node;
          className = getSimpleClassName node;
          fullClassName = (if packageName \<noteq> '''' then packageName @ ''.'' @ className
                           else className)
      in case parentClassName of
           None \<Rightarrow> fullClassName
         | Some p \<Rightarrow> (if p \<noteq> '''' then p @ ''$'' @ fullClassName else fullClassName))"

subsection \<open>Methods\<close>

definition getMethodIdentifier :: "SyntaxNode \<Rightarrow> string" where
  "getMethodIdentifier methodNode =
     (case find (\<lambda>child. nodeType child = IDENTIFIER) (children methodNode) of
        None \<Rightarrow> ''''
      | Some nameNode \<Rightarrow>
          nodeText nameNode @ ''['' @ string_of_nat (startRow methodNode) @ ''-''
            @ string_of_nat (endRow methodNode) @ '']'')"

definition collectMethodCollapseds :: "SyntaxNode \<Rightarrow> nat \<Rightarrow> MethodCollapsed option" where
  "collectMethodCollapseds methodNode baseOffset =
     (case find (\<lambda>n. nodeType n = BLOCK) (children methodNode) of
        None \<Rightarrow> None
      | Some bodyNode \<Rightarrow>
          Some \<lparr> start = int (startIndex bodyNode) - int baseOffset,
                 end' = int (endIndex bodyNode) - int baseOffset,
                 collapsedStr = ''{ id:'' @ getMethodIdentifier methodNode @ '' }'' \<rparr>)"

text \<open>\<^verbatim>\<open>isClassOrInterfaceBody(node) ? node : node.children.find(...)\<close>\<close>

definition classBodyOf :: "SyntaxNode \<Rightarrow> SyntaxNode option" where
  "classBodyOf node =
     (if isClassOrInterfaceBody node then Some node
      else find isClassOrInterfaceBody (children node))"

lemma size_child: "c \<in> set (children n) \<Longrightarrow> size c < size n"
  by (cases n) (auto simp: less_Suc_eq_le size_list_estimation')

lemma size_classBodyOf: "classBodyOf n = Some b \<Longrightarrow> size b \<le> size n"
  by (auto simp: classBodyOf_def find_Some_iff dest!: nth_mem [THEN size_child]
           split: if_splits)


text \<open>The array \<^verbatim>\<open>collapseds\<close> is pushed to in place: it is passed in and returned.\<close>

function collectMethodCollapsedsRecursively ::
  "SyntaxNode \<Rightarrow> nat \<Rightarrow> MethodCollapsed list \<Rightarrow> MethodCollapsed list" where
  "collectMethodCollapsedsRecursively node baseOffset collapseds =
     (if isCollapsedNode node then
        (case collectMethodCollapseds node baseOffset of
           Some collapsed \<Rightarrow> collapseds @ [collapsed]
         | None \<Rightarrow> collapseds)
      else
        (case classBodyOf node of
           None \<Rightarrow> collapseds
         | Some classBody \<Rightarrow>
             fold (\<lambda>child acc.
                     if nodeType child = METHOD \<or> isClassOrInterface child
                     then collectMethodCollapsedsRecursively child baseOffset acc
                     else acc)
                  (children classBody) collapseds))"
  by pat_completeness auto
termination
proof (relation "measure (\<lambda>(node, baseOffset, collapseds). size node)")
  show "wf (measure (\<lambda>(node, baseOffset, collapseds). size node))"
    by simp
next
  fix node classBody child :: SyntaxNode and baseOffset :: nat
    and collapseds acc :: "MethodCollapsed list"
  assume "classBodyOf node = Some classBody" and "child \<in> set (children classBody)"
  then have "size child < size node"
    using size_child [of child classBody] size_classBodyOf [of node classBody] by linarith
  then show "((child, baseOffset, acc), (node, baseOffset, collapseds))
             \<in> measure (\<lambda>(node, baseOffset, collapseds). size node)"
    by simp
qed

text \<open>The generator \<^verbatim>\<open>chunkMethodRecursively\<close> is the list of what it yields.\<close>

function chunkMethodRecursively :: "SyntaxNode \<Rightarrow> JavaChunkWithoutID list" where
  "chunkMethodRecursively node =
     (if isCollapsedNode node then
        (if startRow node = endRow node then []
         else [\<lparr> content = nodeText node,
                 startLine = startRow node,
                 endLine = endRow node,
                 methodIdentifier = Some (getMethodIdentifier node),
                 chunkType = method_definition \<rparr>])
      else
        (case classBodyOf node of
           None \<Rightarrow> []
         | Some classBody \<Rightarrow>
             concat (map (\<lambda>child.
                            if nodeType child = METHOD \<or> isClassOrInterface child
                            then chunkMethodRecursively child
                            else [])
                         (children classBody))))"
  by pat_completeness auto
termination
proof (relation "measure size")
  show "wf (measure (size :: SyntaxNode \<Rightarrow> nat))"
    by simp
next
  fix node classBody child :: SyntaxNode
  assume "classBodyOf node = Some classBody" and "child \<in> set (children classBody)"
  then have "size child < size node"
    using size_child [of child classBody] size_classBodyOf [of node classBody] by linarith
  then show "(child, node) \<in> measure size"
    by simp
qed

text \<open>\<^verbatim>\<open>collapseds.sort((a, b) => b.start - a.start)\<close>: a stable sort, descending in
  \<^verbatim>\<open>start\<close>.\<close>

definition sortCollapseds :: "MethodCollapsed list \<Rightarrow> MethodCollapsed list" where
  "sortCollapseds collapseds = sort_key (\<lambda>c. - start c) collapseds"

definition applyCollapsed :: "MethodCollapsed \<Rightarrow> string \<Rightarrow> string" where
  "applyCollapsed c modifiedCode =
     js_slice modifiedCode 0 (start c) @ collapsedStr c @ js_slice_from modifiedCode (end' c)"

definition collapseMethodBody :: "SyntaxNode \<Rightarrow> string \<Rightarrow> string" where
  "collapseMethodBody node code =
     (let collapseds = collectMethodCollapsedsRecursively node (startIndex node) []
      in fold applyCollapsed (sortCollapseds collapseds) code)"

definition getCollapsedClassDefinition :: "SyntaxNode \<Rightarrow> string \<Rightarrow> JavaChunkWithoutID" where
  "getCollapsedClassDefinition node code =
     (let modifiedCode =
            collapseMethodBody node (js_slice code (int (startIndex node)) (int (endIndex node)));
          importsAndPackage = js_slice code 0 (int (startIndex node))
      in \<lparr> content = importsAndPackage @ modifiedCode,
           startLine = 0,
           endLine = endRow node,
           methodIdentifier = None,
           chunkType = class_definition \<rparr>)"

subsection \<open>\<^verbatim>\<open>codeChunker\<close>\<close>

text \<open>
  The parser provider is outside the chunker: \<^verbatim>\<open>getParserForFile(filepath)\<close> gives a
  parser or nothing, and \<^verbatim>\<open>parser.parse(contents).rootNode\<close> is the tree. Each call to
  the provider is recorded, in order. The only \<^verbatim>\<open>throw\<close> comes before the first
  \<^verbatim>\<open>yield\<close>, so a run is either the error or the list of all chunks.
\<close>

type_synonym parser = "string \<Rightarrow> SyntaxNode"

datatype providerCall = GetParserForFile string | Parse string

datatype error = Error string

text \<open>One round of \<^verbatim>\<open>for (const node of root.children)\<close>.\<close>

definition chunkTopLevel :: "string \<Rightarrow> SyntaxNode \<Rightarrow> JavaChunkWithoutID list" where
  "chunkTopLevel contents node =
     (if isClassOrInterface node then
        getCollapsedClassDefinition node contents # chunkMethodRecursively node
      else if ENUM = nodeType node \<or> ANNOTATION = nodeType node then
        [\<lparr> content = contents,
           startLine = startRow node,
           endLine = endRow node,
           methodIdentifier = None,
           chunkType = class_definition \<rparr>]
      else [])"

definition codeChunker ::
  "(string \<Rightarrow> parser option) \<Rightarrow> string \<Rightarrow> string
     \<Rightarrow> providerCall list \<times> (error + JavaChunkWithoutID list)" where
  "codeChunker getParserForFile filepath contents =
     (if length (js_trim contents) = 0 then ([], Inr [])
      else
        (case getParserForFile filepath of
           None \<Rightarrow>
             ([GetParserForFile filepath],
              Inl (Error (''Failed to load parser for file '' @ filepath)))
         | Some parser \<Rightarrow>
             (let root = parser contents
              in ([GetParserForFile filepath, Parse contents],
                  Inr (concat (map (chunkTopLevel contents) (children root)))))))"


subsection \<open>\<^verbatim>\<open>javaCodeUtil.ts\<close>\<close>

text \<open>\<^verbatim>\<open>Array.prototype.join\<close>\<close>

fun js_join :: "string \<Rightarrow> string list \<Rightarrow> string" where
  "js_join sep [] = ''''"
| "js_join sep [x] = x"
| "js_join sep (x # y # ys) = x @ sep @ js_join sep (y # ys)"

text \<open>
  \<^verbatim>\<open>getPackageName\<close> of \<^verbatim>\<open>src/core/util/javaCodeUtil.ts\<close>. The table
  \<^verbatim>\<open>JAVA_NODE_TYPES\<close> is imported from a module that is not among the sources: its
  \<^verbatim>\<open>PACKAGE\<close> entry is the parameter \<open>JAVA_PACKAGE\<close>.
\<close>

definition util_getPackageName :: "string \<Rightarrow> ancestors \<Rightarrow> SyntaxNode \<Rightarrow> string option" where
  "util_getPackageName JAVA_PACKAGE anc node =
     (case find (\<lambda>child. nodeType child = JAVA_PACKAGE) (children (rootOf anc node)) of
        Some packageDecl \<Rightarrow>
          Some (js_join ''.''
                  (map nodeText
                     (filter (\<lambda>child. nodeType child = ''identifier'') (children packageDecl))))
      | None \<Rightarrow> None)"

section \<open>What the chunker is expected to produce\<close>

subsection \<open>The methods of a type\<close>

text \<open>
  The descent of the specification: a method declaration is reached as it is; a node that is,
  or directly contains, a class or interface body is entered, and of the members of that body
  the method declarations and the nested class and interface declarations are followed, in
  the order of the body.
\<close>

function reachedMethods :: "SyntaxNode \<Rightarrow> SyntaxNode list" where
  "reachedMethods node =
     (if nodeType node = METHOD then [node]
      else
        (case classBodyOf node of
           None \<Rightarrow> []
         | Some classBody \<Rightarrow>
             concat (map (\<lambda>child.
                            if nodeType child = METHOD \<or> isClassOrInterface child
                            then reachedMethods child
                            else [])
                         (children classBody))))"
  by pat_completeness auto
termination
proof (relation "measure size")
  show "wf (measure (size :: SyntaxNode \<Rightarrow> nat))"
    by simp
next
  fix node classBody child :: SyntaxNode
  assume "classBodyOf node = Some classBody" and "child \<in> set (children classBody)"
  then have "size child < size node"
    using size_child [of child classBody] size_classBodyOf [of node classBody] by linarith
  then show "(child, node) \<in> measure size"
    by simp
qed

text \<open>The chunk of one method, and the methods that span more than one row.\<close>

definition methodChunk :: "SyntaxNode \<Rightarrow> JavaChunkWithoutID" where
  "methodChunk m =
     \<lparr> content = nodeText m, startLine = startRow m, endLine = endRow m,
       methodIdentifier = Some (getMethodIdentifier m), chunkType = method_definition \<rparr>"

definition multiRowMethods :: "SyntaxNode \<Rightarrow> SyntaxNode list" where
  "multiRowMethods node = filter (\<lambda>m. startRow m \<noteq> endRow m) (reachedMethods node)"

text \<open>All nodes of a tree in document order, each node before its children.\<close>

fun preorder :: "SyntaxNode \<Rightarrow> SyntaxNode list" where
  "preorder (SyntaxNode ty tx si ei sr er cs) =
     SyntaxNode ty tx si ei sr er cs # concat (map preorder cs)"

text \<open>
  The reading of the specification's testable properties: every method and constructor
  declaration below a type, whatever the kind and depth of the types it is nested in.
\<close>

definition declaredMethods :: "SyntaxNode \<Rightarrow> SyntaxNode list" where
  "declaredMethods node =
     filter (\<lambda>n. nodeType n = METHOD \<or> nodeType n = CONSTRUCTOR) (preorder node)"

text \<open>A type below which no constructor is declared.\<close>

definition noConstructors :: "SyntaxNode \<Rightarrow> bool" where
  "noConstructors node = list_all (\<lambda>n. nodeType n \<noteq> CONSTRUCTOR) (preorder node)"

subsection \<open>Trees of the parser\<close>

text \<open>
  The data model's invariant on the provider's trees: offsets are monotonic, the ranges of
  the children lie in the range of their parent, one after the other, and a block has at
  least its braces. Rows are monotonic as well.
\<close>

fun wfSpans :: "SyntaxNode \<Rightarrow> bool" where
  "wfSpans (SyntaxNode ty tx si ei sr er cs) =
     (si \<le> ei \<and> (ty = BLOCK \<longrightarrow> si < ei) \<and>
      (\<forall>c\<in>set cs. si \<le> startIndex c \<and> endIndex c \<le> ei \<and> wfSpans c) \<and>
      sorted_wrt (\<lambda>a b. endIndex a \<le> startIndex b) cs)"

definition rowsOrdered :: "SyntaxNode \<Rightarrow> bool" where
  "rowsOrdered root = list_all (\<lambda>n. startRow n \<le> endRow n) (preorder root)"

subsection \<open>The collapsed text\<close>

text \<open>
  The span of a method's body, relative to \<open>baseOffset\<close>, with its placeholder; none for a
  method without a block.
\<close>

definition bodySpan :: "nat \<Rightarrow> SyntaxNode \<Rightarrow> (nat \<times> nat \<times> string) option" where
  "bodySpan baseOffset m =
     (case find (\<lambda>n. nodeType n = BLOCK) (children m) of
        None \<Rightarrow> None
      | Some b \<Rightarrow> Some (startIndex b - baseOffset, endIndex b - baseOffset,
                        ''{ id:'' @ getMethodIdentifier m @ '' }''))"

definition bodySpans :: "nat \<Rightarrow> SyntaxNode \<Rightarrow> (nat \<times> nat \<times> string) list" where
  "bodySpans baseOffset node = List.map_filter (bodySpan baseOffset) (reachedMethods node)"

text \<open>
  The text \<open>t\<close> from \<open>pos\<close> on, in which each span \<open>(s, e, r)\<close> is replaced by \<open>r\<close> and
  everything between the spans is kept: one pass from left to right, over spans in
  ascending order.
\<close>

fun replaceSpans :: "string \<Rightarrow> nat \<Rightarrow> (nat \<times> nat \<times> string) list \<Rightarrow> string" where
  "replaceSpans t pos [] = drop pos t"
| "replaceSpans t pos ((s, e, r) # rest) = take (s - pos) (drop pos t) @ r @ replaceSpans t e rest"

text \<open>Spans that are not empty and follow one another between \<open>lo\<close> and \<open>hi\<close>.\<close>

fun spansChain :: "nat \<Rightarrow> nat \<Rightarrow> (nat \<times> nat \<times> string) list \<Rightarrow> bool" where
  "spansChain lo hi [] = (lo \<le> hi)"
| "spansChain lo hi ((s, e, r) # rest) = (lo \<le> s \<and> s < e \<and> spansChain e hi rest)"

definition toCollapsed :: "nat \<times> nat \<times> string \<Rightarrow> MethodCollapsed" where
  "toCollapsed = (\<lambda>(s, e, r). \<lparr> start = int s, end' = int e, collapsedStr = r \<rparr>)"

section \<open>Example files\<close>

text \<open>
  The trees of the examples, written out with the text, offsets and rows of every node. A
  provider that has a parser for every path and answers with one tree, and one with no
  parser at all.
\<close>

text \<open>
  A tree agrees with a source when every node lies in the source, its text is its span of
  the source and its rows are the numbers of line feeds before its offsets.
\<close>

definition rowAt :: "string \<Rightarrow> nat \<Rightarrow> nat" where
  "rowAt src i = length (filter (\<lambda>c. c = CHR 0x0A) (take i src))"

definition agreesWith :: "SyntaxNode \<Rightarrow> string \<Rightarrow> bool" where
  "agreesWith root src =
     list_all (\<lambda>n. endIndex n \<le> length src
                  \<and> nodeText n = take (endIndex n - startIndex n) (drop (startIndex n) src)
                  \<and> startRow n = rowAt src (startIndex n)
                  \<and> endRow n = rowAt src (endIndex n))
       (preorder root)"

definition providerOf :: "SyntaxNode \<Rightarrow> string \<Rightarrow> parser option" where
  "providerOf tree filepath = Some (\<lambda>contents. tree)"

definition noProvider :: "string \<Rightarrow> parser option" where
  "noProvider filepath = None"

definition src_ctor :: string where
  "src_ctor =
     ''class A {\<newline>  A() {\<newline>    init();\<newline>  }\<newline>  void m() {\<newline>    run();\<newline>  }\<newline>}''"

definition ctor_constructor :: SyntaxNode where
  "ctor_constructor =
     SyntaxNode ''constructor_declaration'' ''A() {\<newline>    init();\<newline>  }'' 12 33 1 3
      [SyntaxNode ''identifier'' ''A'' 12 13 1 1 [],
       SyntaxNode ''formal_parameters'' ''()'' 13 15 1 1
        [SyntaxNode ''('' ''('' 13 14 1 1 [],
         SyntaxNode '')'' '')'' 14 15 1 1 []],
       SyntaxNode ''constructor_body'' ''{\<newline>    init();\<newline>  }'' 16 33 1 3
        [SyntaxNode ''{'' ''{'' 16 17 1 1 [],
         SyntaxNode ''expression_statement'' ''init();'' 22 29 2 2 [],
         SyntaxNode ''}'' ''}'' 32 33 3 3 []]]"

definition ctor_class :: SyntaxNode where
  "ctor_class =
     SyntaxNode ''class_declaration'' ''class A {\<newline>  A() {\<newline>    init();\<newline>  }\<newline>  void m() {\<newline>    run();\<newline>  }\<newline>}'' 0 63 0 7
      [SyntaxNode ''class'' ''class'' 0 5 0 0 [],
       SyntaxNode ''identifier'' ''A'' 6 7 0 0 [],
       SyntaxNode ''class_body'' ''{\<newline>  A() {\<newline>    init();\<newline>  }\<newline>  void m() {\<newline>    run();\<newline>  }\<newline>}'' 8 63 0 7
        [SyntaxNode ''{'' ''{'' 8 9 0 0 [],
         ctor_constructor,
         SyntaxNode ''method_declaration'' ''void m() {\<newline>    run();\<newline>  }'' 36 61 4 6
          [SyntaxNode ''void_type'' ''void'' 36 40 4 4 [],
           SyntaxNode ''identifier'' ''m'' 41 42 4 4 [],
           SyntaxNode ''formal_parameters'' ''()'' 42 44 4 4
            [SyntaxNode ''('' ''('' 42 43 4 4 [],
             SyntaxNode '')'' '')'' 43 44 4 4 []],
           SyntaxNode ''block'' ''{\<newline>    run();\<newline>  }'' 45 61 4 6
            [SyntaxNode ''{'' ''{'' 45 46 4 4 [],
             SyntaxNode ''expression_statement'' ''run();'' 51 57 5 5 [],
             SyntaxNode ''}'' ''}'' 60 61 6 6 []]],
         SyntaxNode ''}'' ''}'' 62 63 7 7 []]]"

definition tree_ctor :: SyntaxNode where
  "tree_ctor =
     SyntaxNode ''program'' ''class A {\<newline>  A() {\<newline>    init();\<newline>  }\<newline>  void m() {\<newline>    run();\<newline>  }\<newline>}'' 0 63 0 7
      [ctor_class]"

definition src_names :: string where
  "src_names =
     ''package pkg;\<newline>class Outer {\<newline>  class Inner {\<newline>    class Deepest {\<newline>    }\<newline>  }\<newline>}''"

definition names_Deepest :: SyntaxNode where
  "names_Deepest =
     SyntaxNode ''class_declaration'' ''class Deepest {\<newline>    }'' 47 68 3 4
      [SyntaxNode ''class'' ''class'' 47 52 3 3 [],
       SyntaxNode ''identifier'' ''Deepest'' 53 60 3 3 [],
       SyntaxNode ''class_body'' ''{\<newline>    }'' 61 68 3 4
        [SyntaxNode ''{'' ''{'' 61 62 3 3 [],
         SyntaxNode ''}'' ''}'' 67 68 4 4 []]]"

definition names_Inner_body :: SyntaxNode where
  "names_Inner_body =
     SyntaxNode ''class_body'' ''{\<newline>    class Deepest {\<newline>    }\<newline>  }'' 41 72 2 5
      [SyntaxNode ''{'' ''{'' 41 42 2 2 [],
       names_Deepest,
       SyntaxNode ''}'' ''}'' 71 72 5 5 []]"

definition names_Inner :: SyntaxNode where
  "names_Inner =
     SyntaxNode ''class_declaration'' ''class Inner {\<newline>    class Deepest {\<newline>    }\<newline>  }'' 29 72 2 5
      [SyntaxNode ''class'' ''class'' 29 34 2 2 [],
       SyntaxNode ''identifier'' ''Inner'' 35 40 2 2 [],
       names_Inner_body]"

definition names_Outer_body :: SyntaxNode where
  "names_Outer_body =
     SyntaxNode ''class_body'' ''{\<newline>  class Inner {\<newline>    class Deepest {\<newline>    }\<newline>  }\<newline>}'' 25 74 1 6
      [SyntaxNode ''{'' ''{'' 25 26 1 1 [],
       names_Inner,
       SyntaxNode ''}'' ''}'' 73 74 6 6 []]"

definition names_Outer :: SyntaxNode where
  "names_Outer =
     SyntaxNode ''class_declaration'' ''class Outer {\<newline>  class Inner {\<newline>    class Deepest {\<newline>    }\<newline>  }\<newline>}'' 13 74 1 6
      [SyntaxNode ''class'' ''class'' 13 18 1 1 [],
       SyntaxNode ''identifier'' ''Outer'' 19 24 1 1 [],
       names_Outer_body]"

definition tree_names :: SyntaxNode where
  "tree_names =
     SyntaxNode ''program'' ''package pkg;\<newline>class Outer {\<newline>  class Inner {\<newline>    class Deepest {\<newline>    }\<newline>  }\<newline>}'' 0 74 0 6
      [SyntaxNode ''package_declaration'' ''package pkg;'' 0 12 0 0
        [SyntaxNode ''package'' ''package'' 0 7 0 0 [],
         SyntaxNode ''identifier'' ''pkg'' 8 11 0 0 [],
         SyntaxNode '';'' '';'' 11 12 0 0 []],
       names_Outer]"

definition src_enum :: string where
  "src_enum =
     ''class A {\<newline>  enum E {\<newline>    X;\<newline>    void f() {\<newline>      g();\<newline>    }\<newline>  }\<newline>}''"

definition enum_method :: SyntaxNode where
  "enum_method =
     SyntaxNode ''method_declaration'' ''void f() {\<newline>      g();\<newline>    }'' 32 59 3 5
      [SyntaxNode ''void_type'' ''void'' 32 36 3 3 [],
       SyntaxNode ''identifier'' ''f'' 37 38 3 3 [],
       SyntaxNode ''formal_parameters'' ''()'' 38 40 3 3
        [SyntaxNode ''('' ''('' 38 39 3 3 [],
         SyntaxNode '')'' '')'' 39 40 3 3 []],
       SyntaxNode ''block'' ''{\<newline>      g();\<newline>    }'' 41 59 3 5
        [SyntaxNode ''{'' ''{'' 41 42 3 3 [],
         SyntaxNode ''expression_statement'' ''g();'' 49 53 4 4 [],
         SyntaxNode ''}'' ''}'' 58 59 5 5 []]]"

definition enum_class :: SyntaxNode where
  "enum_class =
     SyntaxNode ''class_declaration'' ''class A {\<newline>  enum E {\<newline>    X;\<newline>    void f() {\<newline>      g();\<newline>    }\<newline>  }\<newline>}'' 0 65 0 7
      [SyntaxNode ''class'' ''class'' 0 5 0 0 [],
       SyntaxNode ''identifier'' ''A'' 6 7 0 0 [],
       SyntaxNode ''class_body'' ''{\<newline>  enum E {\<newline>    X;\<newline>    void f() {\<newline>      g();\<newline>    }\<newline>  }\<newline>}'' 8 65 0 7
        [SyntaxNode ''{'' ''{'' 8 9 0 0 [],
         SyntaxNode ''enum_declaration'' ''enum E {\<newline>    X;\<newline>    void f() {\<newline>      g();\<newline>    }\<newline>  }'' 12 63 1 6
          [SyntaxNode ''enum'' ''enum'' 12 16 1 1 [],
           SyntaxNode ''identifier'' ''E'' 17 18 1 1 [],
           SyntaxNode ''enum_body'' ''{\<newline>    X;\<newline>    void f() {\<newline>      g();\<newline>    }\<newline>  }'' 19 63 1 6
            [SyntaxNode ''{'' ''{'' 19 20 1 1 [],
             SyntaxNode ''enum_constant'' ''X'' 25 26 2 2
              [SyntaxNode ''identifier'' ''X'' 25 26 2 2 []],
             SyntaxNode ''enum_body_declarations'' '';\<newline>    void f() {\<newline>      g();\<newline>    }'' 26 59 2 5
              [SyntaxNode '';'' '';'' 26 27 2 2 [],
               enum_method],
             SyntaxNode ''}'' ''}'' 62 63 6 6 []]],
         SyntaxNode ''}'' ''}'' 64 65 7 7 []]]"

definition tree_enum :: SyntaxNode where
  "tree_enum =
     SyntaxNode ''program'' ''class A {\<newline>  enum E {\<newline>    X;\<newline>    void f() {\<newline>      g();\<newline>    }\<newline>  }\<newline>}'' 0 65 0 7
      [enum_class]"

definition src_sig :: string where
  "src_sig =
     ''class A {\<newline>  void f()\<newline>  { }\<newline>}''"

definition sig_body :: SyntaxNode where
  "sig_body =
     SyntaxNode ''block'' ''{ }'' 23 26 2 2
      [SyntaxNode ''{'' ''{'' 23 24 2 2 [],
       SyntaxNode ''}'' ''}'' 25 26 2 2 []]"

definition sig_method :: SyntaxNode where
  "sig_method =
     SyntaxNode ''method_declaration'' ''void f()\<newline>  { }'' 12 26 1 2
      [SyntaxNode ''void_type'' ''void'' 12 16 1 1 [],
       SyntaxNode ''identifier'' ''f'' 17 18 1 1 [],
       SyntaxNode ''formal_parameters'' ''()'' 18 20 1 1
        [SyntaxNode ''('' ''('' 18 19 1 1 [],
         SyntaxNode '')'' '')'' 19 20 1 1 []],
       sig_body]"

definition sig_class :: SyntaxNode where
  "sig_class =
     SyntaxNode ''class_declaration'' ''class A {\<newline>  void f()\<newline>  { }\<newline>}'' 0 28 0 3
      [SyntaxNode ''class'' ''class'' 0 5 0 0 [],
       SyntaxNode ''identifier'' ''A'' 6 7 0 0 [],
       SyntaxNode ''class_body'' ''{\<newline>  void f()\<newline>  { }\<newline>}'' 8 28 0 3
        [SyntaxNode ''{'' ''{'' 8 9 0 0 [],
         sig_method,
         SyntaxNode ''}'' ''}'' 27 28 3 3 []]]"

definition tree_sig :: SyntaxNode where
  "tree_sig =
     SyntaxNode ''program'' ''class A {\<newline>  void f()\<newline>  { }\<newline>}'' 0 28 0 3
      [sig_class]"

definition src_inner_package :: string where
  "src_inner_package =
     ''class A {\<newline>  void f() {\<newline>    package q;\<newline>  }\<newline>}''"

definition inner_package_class :: SyntaxNode where
  "inner_package_class =
     SyntaxNode ''class_declaration'' ''class A {\<newline>  void f() {\<newline>    package q;\<newline>  }\<newline>}'' 0 43 0 4
      [SyntaxNode ''class'' ''class'' 0 5 0 0 [],
       SyntaxNode ''identifier'' ''A'' 6 7 0 0 [],
       SyntaxNode ''class_body'' ''{\<newline>  void f() {\<newline>    package q;\<newline>  }\<newline>}'' 8 43 0 4
        [SyntaxNode ''{'' ''{'' 8 9 0 0 [],
         SyntaxNode ''method_declaration'' ''void f() {\<newline>    package q;\<newline>  }'' 12 41 1 3
          [SyntaxNode ''void_type'' ''void'' 12 16 1 1 [],
           SyntaxNode ''identifier'' ''f'' 17 18 1 1 [],
           SyntaxNode ''formal_parameters'' ''()'' 18 20 1 1
            [SyntaxNode ''('' ''('' 18 19 1 1 [],
             SyntaxNode '')'' '')'' 19 20 1 1 []],
           SyntaxNode ''block'' ''{\<newline>    package q;\<newline>  }'' 21 41 1 3
            [SyntaxNode ''{'' ''{'' 21 22 1 1 [],
             SyntaxNode ''package_declaration'' ''package q;'' 27 37 2 2
              [SyntaxNode ''package'' ''package'' 27 34 2 2 [],
               SyntaxNode ''identifier'' ''q'' 35 36 2 2 [],
               SyntaxNode '';'' '';'' 36 37 2 2 []],
             SyntaxNode ''}'' ''}'' 40 41 3 3 []]],
         SyntaxNode ''}'' ''}'' 42 43 4 4 []]]"

definition tree_inner_package :: SyntaxNode where
  "tree_inner_package =
     SyntaxNode ''program'' ''class A {\<newline>  void f() {\<newline>    package q;\<newline>  }\<newline>}'' 0 43 0 4
      [inner_package_class]"

definition src_nested :: string where
  "src_nested =
     ''package p;\<newline>class A {\<newline>  int x;\<newline>  void m() {\<newline>    run();\<newline>  }\<newline>  class B {\<newline>    void n() {\<newline>      go();\<newline>    }\<newline>    void s() { }\<newline>  }\<newline>}''"

definition nested_s :: SyntaxNode where
  "nested_s =
     SyntaxNode ''method_declaration'' ''void s() { }'' 107 119 10 10
      [SyntaxNode ''void_type'' ''void'' 107 111 10 10 [],
       SyntaxNode ''identifier'' ''s'' 112 113 10 10 [],
       SyntaxNode ''formal_parameters'' ''()'' 113 115 10 10
        [SyntaxNode ''('' ''('' 113 114 10 10 [],
         SyntaxNode '')'' '')'' 114 115 10 10 []],
       SyntaxNode ''block'' ''{ }'' 116 119 10 10
        [SyntaxNode ''{'' ''{'' 116 117 10 10 [],
         SyntaxNode ''}'' ''}'' 118 119 10 10 []]]"

definition nested_class :: SyntaxNode where
  "nested_class =
     SyntaxNode ''class_declaration'' ''class A {\<newline>  int x;\<newline>  void m() {\<newline>    run();\<newline>  }\<newline>  class B {\<newline>    void n() {\<newline>      go();\<newline>    }\<newline>    void s() { }\<newline>  }\<newline>}'' 11 125 1 12
      [SyntaxNode ''class'' ''class'' 11 16 1 1 [],
       SyntaxNode ''identifier'' ''A'' 17 18 1 1 [],
       SyntaxNode ''class_body'' ''{\<newline>  int x;\<newline>  void m() {\<newline>    run();\<newline>  }\<newline>  class B {\<newline>    void n() {\<newline>      go();\<newline>    }\<newline>    void s() { }\<newline>  }\<newline>}'' 19 125 1 12
        [SyntaxNode ''{'' ''{'' 19 20 1 1 [],
         SyntaxNode ''field_declaration'' ''int x;'' 23 29 2 2
          [SyntaxNode ''integral_type'' ''int'' 23 26 2 2 [],
           SyntaxNode ''variable_declarator'' ''x'' 27 28 2 2
            [SyntaxNode ''identifier'' ''x'' 27 28 2 2 []],
           SyntaxNode '';'' '';'' 28 29 2 2 []],
         SyntaxNode ''method_declaration'' ''void m() {\<newline>    run();\<newline>  }'' 32 57 3 5
          [SyntaxNode ''void_type'' ''void'' 32 36 3 3 [],
           SyntaxNode ''identifier'' ''m'' 37 38 3 3 [],
           SyntaxNode ''formal_parameters'' ''()'' 38 40 3 3
            [SyntaxNode ''('' ''('' 38 39 3 3 [],
             SyntaxNode '')'' '')'' 39 40 3 3 []],
           SyntaxNode ''block'' ''{\<newline>    run();\<newline>  }'' 41 57 3 5
            [SyntaxNode ''{'' ''{'' 41 42 3 3 [],
             SyntaxNode ''expression_statement'' ''run();'' 47 53 4 4 [],
             SyntaxNode ''}'' ''}'' 56 57 5 5 []]],
         SyntaxNode ''class_declaration'' ''class B {\<newline>    void n() {\<newline>      go();\<newline>    }\<newline>    void s() { }\<newline>  }'' 60 123 6 11
          [SyntaxNode ''class'' ''class'' 60 65 6 6 [],
           SyntaxNode ''identifier'' ''B'' 66 67 6 6 [],
           SyntaxNode ''class_body'' ''{\<newline>    void n() {\<newline>      go();\<newline>    }\<newline>    void s() { }\<newline>  }'' 68 123 6 11
            [SyntaxNode ''{'' ''{'' 68 69 6 6 [],
             SyntaxNode ''method_declaration'' ''void n() {\<newline>      go();\<newline>    }'' 74 102 7 9
              [SyntaxNode ''void_type'' ''void'' 74 78 7 7 [],
               SyntaxNode ''identifier'' ''n'' 79 80 7 7 [],
               SyntaxNode ''formal_parameters'' ''()'' 80 82 7 7
                [SyntaxNode ''('' ''('' 80 81 7 7 [],
                 SyntaxNode '')'' '')'' 81 82 7 7 []],
               SyntaxNode ''block'' ''{\<newline>      go();\<newline>    }'' 83 102 7 9
                [SyntaxNode ''{'' ''{'' 83 84 7 7 [],
                 SyntaxNode ''expression_statement'' ''go();'' 91 96 8 8 [],
                 SyntaxNode ''}'' ''}'' 101 102 9 9 []]],
             nested_s,
             SyntaxNode ''}'' ''}'' 122 123 11 11 []]],
         SyntaxNode ''}'' ''}'' 124 125 12 12 []]]"

definition tree_nested :: SyntaxNode where
  "tree_nested =
     SyntaxNode ''program'' ''package p;\<newline>class A {\<newline>  int x;\<newline>  void m() {\<newline>    run();\<newline>  }\<newline>  class B {\<newline>    void n() {\<newline>      go();\<newline>    }\<newline>    void s() { }\<newline>  }\<newline>}'' 0 125 0 12
      [SyntaxNode ''package_declaration'' ''package p;'' 0 10 0 0
        [SyntaxNode ''package'' ''package'' 0 7 0 0 [],
         SyntaxNode ''identifier'' ''p'' 8 9 0 0 [],
         SyntaxNode '';'' '';'' 9 10 0 0 []],
       nested_class]"


text \<open>The multi-row declarations among \<open>declaredMethods\<close>, and the only chunk of the
  file with the nested enum.\<close>

definition declaredMultiRowMethods :: "SyntaxNode \<Rightarrow> SyntaxNode list" where
  "declaredMultiRowMethods node =
     filter (\<lambda>m. startRow m \<noteq> endRow m) (declaredMethods node)"

definition enum_skeleton :: JavaChunkWithoutID where
  "enum_skeleton =
     \<lparr> content = src_enum, startLine = 0, endLine = 7, methodIdentifier = None,
       chunkType = class_definition \<rparr>"

section \<open>Properties\<close>

subsection \<open>The two descents of the chunker visit the reached methods\<close>

declare reachedMethods.simps [simp del] chunkMethodRecursively.simps [simp del]
  collectMethodCollapsedsRecursively.simps [simp del]

lemma chunkMethodRecursively_eq:
  "chunkMethodRecursively node = map methodChunk (multiRowMethods node)"
proof (induction node rule: chunkMethodRecursively.induct)
  case (1 node)
  show ?case
  proof (cases "isCollapsedNode node")
    case True
    then show ?thesis
      by (simp add: chunkMethodRecursively.simps [of node] reachedMethods.simps [of node]
          multiRowMethods_def methodChunk_def isCollapsedNode_def)
  next
    case False
    show ?thesis
    proof (cases "classBodyOf node")
      case None
      with False show ?thesis
        by (simp add: chunkMethodRecursively.simps [of node] reachedMethods.simps [of node]
            multiRowMethods_def isCollapsedNode_def)
    next
      case (Some classBody)
      have step: "(if nodeType child = METHOD \<or> isClassOrInterface child
                   then chunkMethodRecursively child else [])
                = map methodChunk (filter (\<lambda>m. startRow m \<noteq> endRow m)
                    (if nodeType child = METHOD \<or> isClassOrInterface child
                     then reachedMethods child else []))"
        if "child \<in> set (children classBody)" for child
        using "1.IH" [OF False Some that] by (simp add: multiRowMethods_def)
      from False Some show ?thesis
        by (simp add: chunkMethodRecursively.simps [of node] reachedMethods.simps [of node]
            multiRowMethods_def isCollapsedNode_def map_concat filter_concat comp_def
            step cong: map_cong)
    qed
  qed
qed

lemma fold_append_acc:
  assumes "\<And>x acc. x \<in> set xs \<Longrightarrow> f x acc = acc @ g x"
  shows "fold f xs acc = acc @ concat (map g xs)"
  using assms by (induction xs arbitrary: acc) simp_all

lemma collect_eq:
  "collectMethodCollapsedsRecursively node baseOffset collapseds =
     collapseds @ List.map_filter (\<lambda>m. collectMethodCollapseds m baseOffset) (reachedMethods node)"
proof (induction node baseOffset collapseds rule: collectMethodCollapsedsRecursively.induct)
  case (1 node baseOffset collapseds)
  show ?case
  proof (cases "isCollapsedNode node")
    case True
    then show ?thesis
      by (simp add: collectMethodCollapsedsRecursively.simps [of node] reachedMethods.simps [of node]
          isCollapsedNode_def List.map_filter_simps split: option.splits)
  next
    case False
    show ?thesis
    proof (cases "classBodyOf node")
      case None
      with False show ?thesis
        by (simp add: collectMethodCollapsedsRecursively.simps [of node] reachedMethods.simps [of node]
            isCollapsedNode_def List.map_filter_simps)
    next
      case (Some classBody)
      let ?g = "\<lambda>child. List.map_filter (\<lambda>m. collectMethodCollapseds m baseOffset)
                   (if nodeType child = METHOD \<or> isClassOrInterface child
                    then reachedMethods child else [])"
      have "fold (\<lambda>child acc.
                    if nodeType child = METHOD \<or> isClassOrInterface child
                    then collectMethodCollapsedsRecursively child baseOffset acc
                    else acc) (children classBody) collapseds
            = collapseds @ concat (map ?g (children classBody))"
      proof (rule fold_append_acc)
        fix child acc assume "child \<in> set (children classBody)"
        then show "(if nodeType child = METHOD \<or> isClassOrInterface child
                    then collectMethodCollapsedsRecursively child baseOffset acc else acc)
                   = acc @ ?g child"
          using "1.IH" [OF False Some, of child acc] by (simp add: List.map_filter_simps)
      qed
      moreover have "List.map_filter (\<lambda>m. collectMethodCollapseds m baseOffset) (reachedMethods node)
            = concat (map ?g (children classBody))"
        using False Some
        by (simp add: reachedMethods.simps [of node] isCollapsedNode_def map_filter_def
            map_concat filter_concat comp_def)
      ultimately show ?thesis
        using False Some by (simp add: collectMethodCollapsedsRecursively.simps [of node])
    qed
  qed
qed

subsection \<open>Splicing from the last span to the first\<close>

lemma spansChain_le: "spansChain lo hi xs \<Longrightarrow> lo \<le> hi"
proof (induction xs arbitrary: lo)
  case Nil
  then show ?case by simp
next
  case (Cons x xs)
  obtain s e r where x: "x = (s, e, r)" by (cases x)
  from Cons.prems x have "lo \<le> s" "s < e" "spansChain e hi xs" by simp_all
  with Cons.IH [of e] show ?case by simp
qed

lemma spansChain_weaken:
  "spansChain lo hi xs \<Longrightarrow> lo' \<le> lo \<Longrightarrow> hi \<le> hi' \<Longrightarrow> spansChain lo' hi' xs"
  by (induction xs arbitrary: lo lo') auto

lemma spansChain_append:
  "spansChain lo mid xs \<Longrightarrow> spansChain mid hi ys \<Longrightarrow> spansChain lo hi (xs @ ys)"
  by (induction xs arbitrary: lo) (auto intro: spansChain_weaken)

lemma spansChain_starts:
  "spansChain lo hi xs \<Longrightarrow> \<forall>x\<in>set xs. lo \<le> fst x \<and> fst x < hi"
proof (induction xs arbitrary: lo)
  case Nil
  then show ?case by simp
next
  case (Cons x xs)
  obtain s e r where x: "x = (s, e, r)" by (cases x)
  from Cons.prems x have c: "lo \<le> s" "s < e" "spansChain e hi xs" by simp_all
  from Cons.IH [OF c(3)] spansChain_le [OF c(3)] c x show ?case by fastforce
qed

lemma spansChain_sorted:
  "spansChain lo hi xs \<Longrightarrow> sorted_wrt (\<lambda>a b. fst a < fst b) xs"
proof (induction xs arbitrary: lo)
  case Nil
  then show ?case by simp
next
  case (Cons x xs)
  obtain s e r where x: "x = (s, e, r)" by (cases x)
  from Cons.prems x have c: "lo \<le> s" "s < e" "spansChain e hi xs" by simp_all
  from spansChain_starts [OF c(3)] c x Cons.IH [OF c(3)] show ?case by fastforce
qed

lemma js_slice_take: "0 \<le> b \<Longrightarrow> js_slice s 0 b = take (nat b) s"
  by (simp add: js_slice_def js_index_def min_def)

lemma js_slice_from_drop: "0 \<le> a \<Longrightarrow> js_slice_from s a = drop (nat a) s"
  by (simp add: js_slice_from_def js_index_def min_def)

lemma js_slice_nat: "js_slice s (int a) (int b) = take (b - a) (drop a s)"
  by (auto simp: js_slice_def js_index_def Let_def min_def)

lemma applyCollapsed_toCollapsed:
  "applyCollapsed (toCollapsed (s, e, r)) m = take s m @ r @ drop e m"
  by (simp add: applyCollapsed_def toCollapsed_def js_slice_take js_slice_from_drop)

lemma foldr_applyCollapsed:
  "spansChain pos (length t) spans \<Longrightarrow>
   foldr applyCollapsed (map toCollapsed spans) t = take pos t @ replaceSpans t pos spans"
proof (induction spans arbitrary: pos)
  case Nil
  then show ?case by simp
next
  case (Cons x spans)
  obtain s e r where x: "x = (s, e, r)" by (cases x)
  from Cons.prems x have c: "pos \<le> s" "s < e" "spansChain e (length t) spans" by simp_all
  from spansChain_le [OF c(3)] have el: "e \<le> length t" .
  have "foldr applyCollapsed (map toCollapsed (x # spans)) t
        = applyCollapsed (toCollapsed (s, e, r)) (take e t @ replaceSpans t e spans)"
    using Cons.IH [OF c(3)] x by simp
  also have "\<dots> = take s t @ r @ replaceSpans t e spans"
    using c el by (simp add: applyCollapsed_toCollapsed min_def)
  also have "take s t = take pos t @ take (s - pos) (drop pos t)"
    using c(1) by (metis le_add_diff_inverse take_add)
  finally show ?case using x by simp
qed

lemma sortCollapseds_rev:
  assumes "spansChain lo hi spans"
  shows "sortCollapseds (map toCollapsed spans) = rev (map toCollapsed spans)"
  unfolding sortCollapseds_def
proof (rule sort_key_inj_key_eq)
  show "mset (map toCollapsed spans) = mset (rev (map toCollapsed spans))"
    by simp
  have st: "sorted_wrt (\<lambda>a b. start a < start b) (map toCollapsed spans)"
    using spansChain_sorted [OF assms]
    by (simp add: sorted_wrt_map toCollapsed_def case_prod_beta)
  have "sorted_wrt (<) (map start (map toCollapsed spans))"
    using st unfolding sorted_wrt_map .
  then have "distinct (map start (map toCollapsed spans))"
    using strict_sorted_iff by blast
  then show "inj_on (\<lambda>c. - start c) (set (map toCollapsed spans))"
    by (auto simp: inj_on_def distinct_map)
  have "sorted_wrt (\<lambda>a b. start a \<le> start b) (map toCollapsed spans)"
    using st by (rule sorted_wrt_mono_rel [rotated]) simp
  then show "sorted (map (\<lambda>c. - start c) (rev (map toCollapsed spans)))"
    by (simp add: sorted_wrt_map rev_map [symmetric] sorted_wrt_rev)
qed

subsection \<open>The bodies of a well-formed tree follow one another\<close>

lemma wfSpans_le: "wfSpans n \<Longrightarrow> startIndex n \<le> endIndex n"
  by (cases n) simp

lemma wfSpans_block: "wfSpans n \<Longrightarrow> nodeType n = BLOCK \<Longrightarrow> startIndex n < endIndex n"
  by (cases n) simp

lemma wfSpans_child:
  "wfSpans n \<Longrightarrow> c \<in> set (children n) \<Longrightarrow>
   wfSpans c \<and> startIndex n \<le> startIndex c \<and> endIndex c \<le> endIndex n"
  by (cases n) simp

lemma wfSpans_sorted:
  "wfSpans n \<Longrightarrow> sorted_wrt (\<lambda>a b. endIndex a \<le> startIndex b) (children n)"
  by (cases n) simp

lemma wfSpans_classBodyOf:
  assumes "wfSpans n" and "classBodyOf n = Some b"
  shows "wfSpans b \<and> startIndex n \<le> startIndex b \<and> endIndex b \<le> endIndex n"
proof (cases "isClassOrInterfaceBody n")
  case True
  with assms show ?thesis by (simp add: classBodyOf_def)
next
  case False
  with assms have "b \<in> set (children n)"
    by (auto simp: classBodyOf_def find_Some_iff)
  with assms(1) show ?thesis by (rule wfSpans_child)
qed

lemma spansChain_concat:
  assumes "sorted_wrt (\<lambda>a b. endIndex a \<le> startIndex b) cs"
    and "\<forall>c\<in>set cs. lo \<le> startIndex c \<and> endIndex c \<le> hi"
    and "\<forall>c\<in>set cs. spansChain (startIndex c) (endIndex c) (g c)"
    and "lo \<le> hi"
  shows "spansChain lo hi (concat (map g cs))"
  using assms
proof (induction cs arbitrary: lo)
  case Nil
  then show ?case by simp
next
  case (Cons c cs)
  have "spansChain (endIndex c) hi (concat (map g cs))"
  proof (rule Cons.IH)
    show "sorted_wrt (\<lambda>a b. endIndex a \<le> startIndex b) cs"
      using Cons.prems(1) by simp
    show "\<forall>c'\<in>set cs. endIndex c \<le> startIndex c' \<and> endIndex c' \<le> hi"
      using Cons.prems(1,2) by simp
    show "\<forall>c\<in>set cs. spansChain (startIndex c) (endIndex c) (g c)"
      using Cons.prems(3) by simp
    show "endIndex c \<le> hi"
      using Cons.prems(2) by simp
  qed
  moreover have "spansChain lo (endIndex c) (g c)"
    using Cons.prems(2,3) by (auto intro: spansChain_weaken)
  ultimately show ?case
    by (simp add: spansChain_append)
qed

lemma bodySpans_chain:
  "wfSpans node \<Longrightarrow> spansChain (startIndex node) (endIndex node) (bodySpans 0 node)"
proof (induction node rule: reachedMethods.induct)
  case (1 node)
  show ?case
  proof (cases "nodeType node = METHOD")
    case True
    show ?thesis
    proof (cases "find (\<lambda>n. nodeType n = BLOCK) (children node)")
      case None
      with True "1.prems" show ?thesis
        by (simp add: bodySpans_def bodySpan_def reachedMethods.simps [of node] List.map_filter_simps wfSpans_le)
    next
      case (Some b)
      then have "b \<in> set (children node)" and "nodeType b = BLOCK"
        by (auto simp: find_Some_iff)
      with "1.prems" have "startIndex node \<le> startIndex b" "endIndex b \<le> endIndex node"
        "startIndex b < endIndex b"
        using wfSpans_child [of node b] wfSpans_block [of b] by auto
      with True Some show ?thesis
        by (simp add: bodySpans_def bodySpan_def reachedMethods.simps [of node] List.map_filter_simps)
    qed
  next
    case False
    show ?thesis
    proof (cases "classBodyOf node")
      case None
      with False "1.prems" show ?thesis
        by (simp add: bodySpans_def bodySpan_def reachedMethods.simps [of node] List.map_filter_simps wfSpans_le)
    next
      case (Some classBody)
      let ?g = "\<lambda>child. if nodeType child = METHOD \<or> isClassOrInterface child
                          then bodySpans 0 child else []"
      from "1.prems" Some have cb: "wfSpans classBody"
        "startIndex node \<le> startIndex classBody" "endIndex classBody \<le> endIndex node"
        using wfSpans_classBodyOf by blast+
      have eq: "bodySpans 0 node = concat (map ?g (children classBody))"
        using False Some
        by (simp add: bodySpans_def reachedMethods.simps [of node] map_filter_def
            map_concat filter_concat comp_def if_distrib [of "map _"] if_distrib [of "filter _"]
            cong: if_cong)
      have "spansChain (startIndex classBody) (endIndex classBody) (concat (map ?g (children classBody)))"
      proof (rule spansChain_concat)
        show "sorted_wrt (\<lambda>a b. endIndex a \<le> startIndex b) (children classBody)"
          using cb(1) by (rule wfSpans_sorted)
        show "\<forall>c\<in>set (children classBody).
                startIndex classBody \<le> startIndex c \<and> endIndex c \<le> endIndex classBody"
          using wfSpans_child [OF cb(1)] by blast
        show "\<forall>c\<in>set (children classBody). spansChain (startIndex c) (endIndex c) (?g c)"
        proof
          fix c assume c: "c \<in> set (children classBody)"
          then have wc: "wfSpans c" using wfSpans_child [OF cb(1)] by blast
          show "spansChain (startIndex c) (endIndex c) (?g c)"
            using "1.IH" [OF False Some c _ wc] wfSpans_le [OF wc] by simp
        qed
        show "startIndex classBody \<le> endIndex classBody"
          using cb(1) by (rule wfSpans_le)
      qed
      then show ?thesis
        unfolding eq using cb(2,3) by (rule spansChain_weaken)
    qed
  qed
qed

lemma spansChain_ends:
  "spansChain lo hi xs \<Longrightarrow> \<forall>x\<in>set xs. fst x < fst (snd x)"
proof (induction xs arbitrary: lo)
  case Nil
  then show ?case by simp
next
  case (Cons x xs)
  obtain s e r where x: "x = (s, e, r)" by (cases x)
  from Cons.prems x have c: "lo \<le> s" "s < e" "spansChain e hi xs" by simp_all
  from Cons.IH [OF c(3)] c x show ?case by simp
qed

lemma spansChain_shift:
  "spansChain lo hi xs \<Longrightarrow> base \<le> lo \<Longrightarrow>
   spansChain (lo - base) (hi - base) (map (\<lambda>(s, e, r). (s - base, e - base, r)) xs)"
proof (induction xs arbitrary: lo)
  case Nil
  then show ?case by simp
next
  case (Cons x xs)
  obtain s e r where x: "x = (s, e, r)" by (cases x)
  from Cons.prems x have c: "lo \<le> s" "s < e" "spansChain e hi xs" by simp_all
  from c Cons.prems(2) have "base \<le> e" "lo - base \<le> s - base" "s - base < e - base"
    by linarith+
  with Cons.IH [OF c(3)] x show ?case by simp
qed

lemma bodySpans_shift:
  "bodySpans base node = map (\<lambda>(s, e, r). (s - base, e - base, r)) (bodySpans 0 node)"
proof -
  have "List.map_filter (bodySpan base) ms
        = map (\<lambda>(s, e, r). (s - base, e - base, r)) (List.map_filter (bodySpan 0) ms)" for ms
    by (induction ms) (simp_all add: List.map_filter_simps bodySpan_def split: option.splits)
  then show ?thesis
    unfolding bodySpans_def .
qed

lemma collected_toCollapsed:
  assumes "\<forall>x\<in>set (bodySpans 0 node). base \<le> fst x \<and> fst x < fst (snd x)"
  shows "List.map_filter (\<lambda>m. collectMethodCollapseds m base) (reachedMethods node)
         = map toCollapsed (bodySpans base node)"
proof -
  have "\<forall>x\<in>set (List.map_filter (bodySpan 0) ms). base \<le> fst x \<and> fst x < fst (snd x) \<Longrightarrow>
        List.map_filter (\<lambda>m. collectMethodCollapseds m base) ms
        = map toCollapsed (List.map_filter (bodySpan base) ms)" for ms
    by (induction ms)
       (auto simp: List.map_filter_simps collectMethodCollapseds_def toCollapsed_def bodySpan_def
             split: option.splits)
  with assms show ?thesis
    unfolding bodySpans_def by blast
qed

lemma collapseMethodBody_replaceSpans:
  assumes "wfSpans node" and "length code = endIndex node - startIndex node"
  shows "collapseMethodBody node code = replaceSpans code 0 (bodySpans (startIndex node) node)"
proof -
  let ?base = "startIndex node"
  have abs: "spansChain ?base (endIndex node) (bodySpans 0 node)"
    using assms(1) by (rule bodySpans_chain)
  then have rel: "spansChain 0 (length code) (bodySpans ?base node)"
    using spansChain_shift [OF abs, of ?base] assms(2) by (simp add: bodySpans_shift [of ?base])
  have "collectMethodCollapsedsRecursively node ?base []
        = map toCollapsed (bodySpans ?base node)"
    using spansChain_starts [OF abs] spansChain_ends [OF abs]
    by (simp add: collect_eq collected_toCollapsed)
  then have "collapseMethodBody node code
        = fold applyCollapsed (rev (map toCollapsed (bodySpans ?base node))) code"
    by (simp add: collapseMethodBody_def sortCollapseds_rev [OF rel])
  also have "\<dots> = foldr applyCollapsed (map toCollapsed (bodySpans ?base node)) code"
    by (simp add: foldr_conv_fold)
  also have "\<dots> = replaceSpans code 0 (bodySpans ?base node)"
    using foldr_applyCollapsed [OF rel] by simp
  finally show ?thesis .
qed

subsection \<open>Document order and the top-level loop\<close>

lemma preorder_node: "preorder n = n # concat (map preorder (children n))"
  by (cases n) simp

lemma subseq_concat_map:
  "(\<And>c. c \<in> set cs \<Longrightarrow> subseq (g c) (h c)) \<Longrightarrow> subseq (concat (map g cs)) (concat (map h cs))"
  by (induction cs) (auto intro: list_emb_append_mono)

lemma subseq_member_concat:
  "c \<in> set cs \<Longrightarrow> subseq (h c) (concat (map h cs))"
proof (induction cs)
  case Nil
  then show ?case by simp
next
  case (Cons a cs)
  show ?case
  proof (cases "c = a")
    case True
    then show ?thesis by (auto intro: list_emb_prefix)
  next
    case False
    with Cons have "subseq (h c) (concat (map h cs))" by simp
    then show ?thesis by (simp add: list_emb_append2)
  qed
qed

lemma subseq_subset: "subseq xs ys \<Longrightarrow> set xs \<subseteq> set ys"
  by (induction rule: list_emb.induct) auto

lemma preorder_classBodyOf:
  assumes "classBodyOf n = Some b"
  shows "subseq (concat (map preorder (children b))) (preorder n)"
proof -
  have b: "subseq (concat (map preorder (children b))) (preorder b)"
    unfolding preorder_node [of b] by (rule list_emb_Cons) simp
  show ?thesis
  proof (cases "isClassOrInterfaceBody n")
    case True
    with assms b show ?thesis by (simp add: classBodyOf_def)
  next
    case False
    with assms have "b \<in> set (children n)"
      by (auto simp: classBodyOf_def find_Some_iff)
    then have "subseq (preorder b) (concat (map preorder (children n)))"
      by (rule subseq_member_concat)
    then have "subseq (preorder b) (preorder n)"
      unfolding preorder_node [of n] by (rule list_emb_Cons)
    with b show ?thesis by (rule subseq_order.trans)
  qed
qed

lemma reachedMethods_subseq: "subseq (reachedMethods node) (preorder node)"
proof (induction node rule: reachedMethods.induct)
  case (1 node)
  show ?case
  proof (cases "nodeType node = METHOD")
    case True
    then show ?thesis
      by (simp add: reachedMethods.simps [of node] preorder_node [of node])
  next
    case False
    show ?thesis
    proof (cases "classBodyOf node")
      case None
      with False show ?thesis by (simp add: reachedMethods.simps [of node])
    next
      case (Some classBody)
      have "subseq (concat (map (\<lambda>child. if nodeType child = METHOD \<or> isClassOrInterface child
                                           then reachedMethods child else []) (children classBody)))
                   (concat (map preorder (children classBody)))"
        by (rule subseq_concat_map) (use "1.IH" [OF False Some] in auto)
      then have "subseq (reachedMethods node) (concat (map preorder (children classBody)))"
        using False Some by (simp add: reachedMethods.simps [of node])
      then show ?thesis
        using preorder_classBodyOf [OF Some] by (rule subseq_order.trans)
    qed
  qed
qed

lemma multiRowMethods_subseq: "subseq (multiRowMethods node) (preorder node)"
  unfolding multiRowMethods_def
  using subseq_filter_left reachedMethods_subseq by (rule subseq_order.trans)

lemma concat_map_single:
  "filter P cs = [node] \<Longrightarrow> (\<And>c. c \<in> set cs \<Longrightarrow> \<not> P c \<Longrightarrow> f c = []) \<Longrightarrow>
   concat (map f cs) = f node"
proof (induction cs)
  case Nil
  then show ?case by simp
next
  case (Cons a cs)
  show ?case
  proof (cases "P a")
    case True
    with Cons.prems(1) have a: "a = node" and none: "filter P cs = []" by simp_all
    from none have "\<And>c. c \<in> set cs \<Longrightarrow> \<not> P c" by (simp add: filter_empty_conv)
    with Cons.prems(2) have "concat (map f cs) = []" by simp
    with a show ?thesis by simp
  next
    case False
    with Cons show ?thesis by simp
  qed
qed

lemma all_white_trim: "\<forall>c\<in>set s. isWhiteSpace c \<Longrightarrow> js_trim s = []"
  by (auto simp: js_trim_def dest: set_dropWhileD)

subsection \<open>The place of one body in the collapsed text\<close>

lemma spansChain_lower:
  "spansChain lo hi (xs @ (s, e, r) # ys) \<Longrightarrow> lo \<le> s"
  using spansChain_starts [of lo hi "xs @ (s, e, r) # ys"] by simp

lemma replaceSpans_split:
  "spansChain pos hi (xs @ (s, e, r) # ys) \<Longrightarrow>
   replaceSpans t pos (xs @ (s, e, r) # ys)
   = replaceSpans (take s t) pos xs @ r @ replaceSpans t e ys"
proof (induction xs arbitrary: pos)
  case Nil
  then show ?case by (simp add: drop_take)
next
  case (Cons x xs)
  obtain s' e' r' where x: "x = (s', e', r')" by (cases x)
  from Cons.prems x have c: "pos \<le> s'" "s' < e'" "spansChain e' hi (xs @ (s, e, r) # ys)"
    by simp_all
  from spansChain_lower [OF c(3)] c(2) have le: "s' \<le> s" by simp
  then have "take (s' - pos) (drop pos (take s t)) = take (s' - pos) (drop pos t)"
    by (simp add: drop_take min_def)
  with Cons.IH [OF c(3)] x show ?case by simp
qed

lemma map_filter_member:
  "x \<in> set xs \<Longrightarrow> f x = Some y \<Longrightarrow> y \<in> set (List.map_filter f xs)"
  by (induction xs) (auto simp: List.map_filter_simps split: option.splits)

lemma bodySpan_in_bodySpans:
  assumes "m \<in> set (reachedMethods node)" and "bodySpan base m = Some sp"
  shows "sp \<in> set (bodySpans base node)"
  unfolding bodySpans_def using assms by (rule map_filter_member)

lemma skeleton_content:
  assumes "wfSpans node" and "endIndex node \<le> length contents"
  shows "content (getCollapsedClassDefinition node contents)
         = take (startIndex node) contents
           @ replaceSpans (take (endIndex node - startIndex node) (drop (startIndex node) contents))
               0 (bodySpans (startIndex node) node)"
proof -
  have "length (take (endIndex node - startIndex node) (drop (startIndex node) contents))
        = endIndex node - startIndex node"
    using assms(2) by simp
  from collapseMethodBody_replaceSpans [OF assms(1) this] show ?thesis
    by (simp add: getCollapsedClassDefinition_def js_slice_nat js_slice_nat [of _ 0, simplified])
qed

lemma bodySpans_rel_chain:
  assumes "wfSpans node" and "endIndex node \<le> length contents"
  shows "spansChain 0 (endIndex node - startIndex node) (bodySpans (startIndex node) node)"
  using spansChain_shift [OF bodySpans_chain [OF assms(1)], of "startIndex node"]
  by (simp add: bodySpans_shift [of "startIndex node"])

lemma chunkTopLevel_rows:
  "\<forall>c\<in>set (chunkTopLevel contents node).
     chunkType c = method_definition \<longrightarrow> startLine c \<noteq> endLine c"
  by (auto simp: chunkTopLevel_def chunkMethodRecursively_eq getCollapsedClassDefinition_def
        multiRowMethods_def methodChunk_def)

text \<open>The example trees are trees of their sources, with nested and ordered spans and
  ordered rows.\<close>

lemma example_trees_ctor:
  "agreesWith tree_ctor src_ctor \<and> wfSpans tree_ctor \<and> rowsOrdered tree_ctor"
  by code_simp

lemma example_trees_names:
  "agreesWith tree_names src_names \<and> wfSpans tree_names \<and> rowsOrdered tree_names"
  by code_simp

lemma example_trees_enum:
  "agreesWith tree_enum src_enum \<and> wfSpans tree_enum \<and> rowsOrdered tree_enum"
  by code_simp

lemma example_trees_sig:
  "agreesWith tree_sig src_sig \<and> wfSpans tree_sig \<and> rowsOrdered tree_sig"
  by code_simp

lemma example_trees_inner_package:
  "agreesWith tree_inner_package src_inner_package \<and> wfSpans tree_inner_package
   \<and> rowsOrdered tree_inner_package"
  by code_simp

lemma example_trees_nested:
  "agreesWith tree_nested src_nested \<and> wfSpans tree_nested \<and> rowsOrdered tree_nested"
  by code_simp

section \<open>The claims\<close>

text \<open>
  Claim C1. A constructor declaration with a multi-row body inside a chunked top-level class
  should get a \<open>method_definition\<close> chunk of its own and a placeholder in the skeleton,
  as a method does. On the class \<open>A\<close> with the constructor \<open>A()\<close> on rows 1 to 3 and the
  method \<open>m\<close> on rows 4 to 6 the chunker emits the skeleton and the chunk of \<open>m\<close> only, and
  the skeleton still holds the constructor's body: the descent follows method, class and
  interface declarations, and \<open>CONSTRUCTOR\<close> is never looked at.
\<close>

theorem constructor_not_chunked:
  "nodeType ctor_constructor = CONSTRUCTOR
   \<and> startRow ctor_constructor = 1 \<and> endRow ctor_constructor = 3
   \<and> codeChunker (providerOf tree_ctor) ''A.java'' src_ctor
       = ([GetParserForFile ''A.java'', Parse src_ctor],
          Inr [\<lparr> content = ''class A {\<newline>  A() {\<newline>    init();\<newline>  }\<newline>  void m() { id:m[4-6] }\<newline>}'',
                  startLine = 0, endLine = 7, methodIdentifier = None,
                  chunkType = class_definition \<rparr>,
               \<lparr> content = ''void m() {\<newline>    run();\<newline>  }'',
                  startLine = 4, endLine = 6, methodIdentifier = Some ''m[4-6]'',
                  chunkType = method_definition \<rparr>])"
  by code_simp

text \<open>
  Claim C2. Resolved top-down under package \<open>pkg\<close>, the names of \<open>Outer\<close>, \<open>Inner\<close> and
  \<open>Deepest\<close> should be \<open>pkg.Outer\<close>, \<open>pkg.Outer$Inner\<close> and \<open>pkg.Outer$Inner$Deepest\<close>.
  \<^verbatim>\<open>getFullClassName\<close> puts the package in front of the simple name before it joins the
  result to the parent's name, so the package comes back at every level.
\<close>

theorem nested_name_repeats_package:
  "getFullClassName [tree_names] names_Outer None = ''pkg.Outer''
   \<and> getFullClassName [names_Outer_body, names_Outer, tree_names] names_Inner
         (Some ''pkg.Outer'')
       = ''pkg.Outer$pkg.Inner''
   \<and> getFullClassName [names_Inner_body, names_Inner, names_Outer_body, names_Outer, tree_names]
         names_Deepest (Some ''pkg.Outer$pkg.Inner'')
       = ''pkg.Outer$pkg.Inner$pkg.Deepest''"
  by code_simp

text \<open>
  Claim C3, amended. For a file whose text is not blank and whose root has exactly one class
  or interface declaration among its children and no enum or annotation declaration, and
  where no constructor is declared below that type, the chunker emits exactly \<open>1 + k\<close>
  chunks, where \<open>k\<close> counts the method declarations that span more than one row and are
  reached through class and interface bodies: the \<open>class_definition\<close> skeleton first, then
  the \<open>method_definition\<close> chunks of these methods, in document order.
\<close>

theorem one_type_chunks:
  assumes "getParserForFile filepath = Some parser"
    and "js_trim contents \<noteq> []"
    and "filter isClassOrInterface (children (parser contents)) = [node]"
    and "\<forall>c\<in>set (children (parser contents)). nodeType c \<noteq> ENUM \<and> nodeType c \<noteq> ANNOTATION"
    and "noConstructors node"
  shows "snd (codeChunker getParserForFile filepath contents)
           = Inr (getCollapsedClassDefinition node contents
                  # map methodChunk (multiRowMethods node))
         \<and> length (getCollapsedClassDefinition node contents
                     # map methodChunk (multiRowMethods node))
             = 1 + length (multiRowMethods node)
         \<and> chunkType (getCollapsedClassDefinition node contents) = class_definition
         \<and> (\<forall>c\<in>set (map methodChunk (multiRowMethods node)). chunkType c = method_definition)
         \<and> subseq (multiRowMethods node) (preorder node)"
proof -
  from assms(3) have "node \<in> set (filter isClassOrInterface (children (parser contents)))"
    by simp
  then have node: "isClassOrInterface node"
    by simp
  have "concat (map (chunkTopLevel contents) (children (parser contents)))
        = chunkTopLevel contents node"
    using assms(3)
  proof (rule concat_map_single)
    fix c assume "c \<in> set (children (parser contents))" and "\<not> isClassOrInterface c"
    with assms(4) show "chunkTopLevel contents c = []"
      by (auto simp: chunkTopLevel_def)
  qed
  with node assms(1,2) have "snd (codeChunker getParserForFile filepath contents)
           = Inr (getCollapsedClassDefinition node contents
                  # map methodChunk (multiRowMethods node))"
    by (simp add: codeChunker_def chunkTopLevel_def chunkMethodRecursively_eq)
  then show ?thesis
    by (simp add: multiRowMethods_subseq getCollapsedClassDefinition_def methodChunk_def)
qed

theorem one_type_chunks_witness:
  "providerOf tree_nested ''A.java'' = Some (\<lambda>contents. tree_nested)
   \<and> js_trim src_nested \<noteq> []
   \<and> filter isClassOrInterface (children tree_nested) = [nested_class]
   \<and> list_all (\<lambda>c. nodeType c \<noteq> ENUM \<and> nodeType c \<noteq> ANNOTATION) (children tree_nested)
   \<and> noConstructors nested_class
   \<and> snd (codeChunker (providerOf tree_nested) ''A.java'' src_nested)
       = Inr (getCollapsedClassDefinition nested_class src_nested
              # map methodChunk (multiRowMethods nested_class))
   \<and> length (getCollapsedClassDefinition nested_class src_nested
                # map methodChunk (multiRowMethods nested_class)) = 3"
proof -
  have h1: "providerOf tree_nested ''A.java'' = Some (\<lambda>contents. tree_nested)"
    by (simp add: providerOf_def)
  have h2: "js_trim src_nested \<noteq> []"
    by code_simp
  have h3: "filter isClassOrInterface (children tree_nested) = [nested_class]"
    by code_simp
  have l4: "list_all (\<lambda>c. nodeType c \<noteq> ENUM \<and> nodeType c \<noteq> ANNOTATION) (children tree_nested)"
    by code_simp
  then have h4: "\<forall>c\<in>set (children tree_nested). nodeType c \<noteq> ENUM \<and> nodeType c \<noteq> ANNOTATION"
    by (simp add: list_all_iff)
  have h5: "noConstructors nested_class"
    by code_simp
  have k: "length (multiRowMethods nested_class) = 2"
    by code_simp
  from one_type_chunks [of "providerOf tree_nested" "''A.java''" "\<lambda>contents. tree_nested"
         src_nested nested_class, OF h1 h2] h3 h4 h5
  have "snd (codeChunker (providerOf tree_nested) ''A.java'' src_nested)
        = Inr (getCollapsedClassDefinition nested_class src_nested
               # map methodChunk (multiRowMethods nested_class))"
    by simp
  with h1 h2 h3 l4 h5 k show ?thesis
    by simp
qed

text \<open>
  The claim as it is written counts the methods of arbitrarily nested types. A method of an
  enum nested in the class spans rows 3 to 5, and the only chunk is the skeleton.
\<close>

theorem nested_enum_method_counterexample:
  "filter isClassOrInterface (children tree_enum) = [enum_class]
   \<and> noConstructors enum_class
   \<and> declaredMultiRowMethods enum_class = [enum_method]
   \<and> snd (codeChunker (providerOf tree_enum) ''A.java'' src_enum) = Inr [enum_skeleton]
   \<and> length [enum_skeleton] \<noteq> 1 + length (declaredMultiRowMethods enum_class)"
  by code_simp

text \<open>
  Claim C4, amended. For a top-level class or interface declaration of a well-formed tree,
  below which no constructor is declared, the skeleton chunk has \<open>startLine = 0\<close>, \<open>endLine\<close> the end row of the type, type
  \<open>class_definition\<close>, and as content the file text before the type followed by the type's
  own text, in which the block of every method declaration reached through class and
  interface bodies is replaced by \<open>{ id:methodIdentifier }\<close> and all other text is kept.
\<close>

theorem skeleton_chunk:
  assumes "isClassOrInterface node" and "wfSpans node" and "endIndex node \<le> length contents"
    and "noConstructors node"
  shows "chunkTopLevel contents node =
           \<lparr> content = take (startIndex node) contents
                       @ replaceSpans (take (endIndex node - startIndex node)
                                         (drop (startIndex node) contents))
                                      0 (bodySpans (startIndex node) node),
             startLine = 0,
             endLine = endRow node,
             methodIdentifier = None,
             chunkType = class_definition \<rparr>
           # chunkMethodRecursively node"
proof -
  have "length (take (endIndex node - startIndex node) (drop (startIndex node) contents))
        = endIndex node - startIndex node"
    using assms(3) by simp
  from collapseMethodBody_replaceSpans [OF assms(2) this] assms(1) show ?thesis
    by (simp add: chunkTopLevel_def getCollapsedClassDefinition_def js_slice_nat
        js_slice_nat [of _ 0, simplified])
qed

theorem skeleton_chunk_witness:
  "isClassOrInterface nested_class \<and> wfSpans nested_class
   \<and> endIndex nested_class \<le> length src_nested
   \<and> noConstructors nested_class
   \<and> chunkTopLevel src_nested nested_class =
         \<lparr> content = take (startIndex nested_class) src_nested
                     @ replaceSpans (take (endIndex nested_class - startIndex nested_class)
                                       (drop (startIndex nested_class) src_nested))
                                    0 (bodySpans (startIndex nested_class) nested_class),
           startLine = 0,
           endLine = endRow nested_class,
           methodIdentifier = None,
           chunkType = class_definition \<rparr>
         # chunkMethodRecursively nested_class
   \<and> take (startIndex nested_class) src_nested
         @ replaceSpans (take (endIndex nested_class - startIndex nested_class)
                           (drop (startIndex nested_class) src_nested))
                        0 (bodySpans (startIndex nested_class) nested_class)
       = ''package p;\<newline>class A {\<newline>  int x;\<newline>  void m() { id:m[3-5] }\<newline>  class B {\<newline>    void n() { id:n[7-9] }\<newline>    void s() { id:s[10-10] }\<newline>  }\<newline>}''"
proof -
  have h1: "isClassOrInterface nested_class"
    by code_simp
  have h2: "wfSpans nested_class"
    by code_simp
  have h3: "endIndex nested_class \<le> length src_nested"
    by code_simp
  have h4: "noConstructors nested_class"
    by code_simp
  have e: "take (startIndex nested_class) src_nested
         @ replaceSpans (take (endIndex nested_class - startIndex nested_class)
                           (drop (startIndex nested_class) src_nested))
                        0 (bodySpans (startIndex nested_class) nested_class)
       = ''package p;\<newline>class A {\<newline>  int x;\<newline>  void m() { id:m[3-5] }\<newline>  class B {\<newline>    void n() { id:n[7-9] }\<newline>    void s() { id:s[10-10] }\<newline>  }\<newline>}''"
    by code_simp
  show ?thesis
    using h1 h2 h3 h4 skeleton_chunk [OF h1 h2 h3 h4] e by - (intro conjI; assumption)
qed

text \<open>
  The claim as it is written replaces every method body, in arbitrarily nested types as
  well. The method \<open>f\<close> of an enum nested in the class has a block, and the content of the
  skeleton is the source unchanged, not the text with the block of \<open>f\<close> replaced.
\<close>

theorem nested_enum_body_counterexample:
  "isClassOrInterface enum_class \<and> wfSpans enum_class \<and> noConstructors enum_class
   \<and> enum_method \<in> set (declaredMethods enum_class)
   \<and> bodySpan 0 enum_method = Some (41, 59, ''{ id:f[3-5] }'')
   \<and> replaceSpans src_enum 0 (List.map_filter (bodySpan 0) (declaredMethods enum_class))
       = ''class A {\<newline>  enum E {\<newline>    X;\<newline>    void f() { id:f[3-5] }\<newline>  }\<newline>}''
   \<and> content (getCollapsedClassDefinition enum_class src_enum) = src_enum
   \<and> content (getCollapsedClassDefinition enum_class src_enum)
       \<noteq> replaceSpans src_enum 0 (List.map_filter (bodySpan 0) (declaredMethods enum_class))"
  by code_simp

text \<open>
  Claim C5, amended. In a well-formed tree, for a top-level class or interface declaration
  below which no constructor is declared, and for every method declaration reached through
  its class and interface bodies whose node, signature and body together, starts and ends
  on the same row: the chunker emits no \<open>method_definition\<close> chunk for it (every emitted
  method chunk has different start and end lines), and if it has a block, the content of
  the type's skeleton chunk has the placeholder \<open>{ id:methodIdentifier }\<close> in the place of
  that block, between the collapsed text before the block and the collapsed text after it.
\<close>

theorem single_row_method:
  assumes "getParserForFile filepath = Some parser" and "js_trim contents \<noteq> []"
    and "node \<in> set (children (parser contents))"
    and "isClassOrInterface node" and "wfSpans node" and "endIndex node \<le> length contents"
    and "noConstructors node"
    and "m \<in> set (reachedMethods node)" and "startRow m = endRow m"
  shows "\<exists>chunks.
           snd (codeChunker getParserForFile filepath contents) = Inr chunks
         \<and> methodChunk m \<notin> set chunks
         \<and> (\<forall>c\<in>set chunks. chunkType c = method_definition \<longrightarrow> startLine c \<noteq> endLine c)
         \<and> getCollapsedClassDefinition node contents \<in> set chunks
         \<and> (\<forall>b. find (\<lambda>n. nodeType n = BLOCK) (children m) = Some b \<longrightarrow>
               (\<exists>before after.
                  bodySpans (startIndex node) node
                    = before @ (startIndex b - startIndex node, endIndex b - startIndex node,
                                ''{ id:'' @ getMethodIdentifier m @ '' }'') # after
                  \<and> content (getCollapsedClassDefinition node contents)
                    = take (startIndex node) contents
                      @ replaceSpans (take (startIndex b - startIndex node)
                                        (drop (startIndex node) contents))
                                     0 before
                      @ ''{ id:'' @ getMethodIdentifier m @ '' }''
                      @ replaceSpans (take (endIndex node - startIndex node)
                                        (drop (startIndex node) contents))
                                     (endIndex b - startIndex node) after))"
proof -
  let ?si = "startIndex node"
  let ?t = "take (endIndex node - ?si) (drop ?si contents)"
  let ?chunks = "concat (map (chunkTopLevel contents) (children (parser contents)))"
  have out: "snd (codeChunker getParserForFile filepath contents) = Inr ?chunks"
    using assms(1,2) by (simp add: codeChunker_def)
  have rows: "\<forall>c\<in>set ?chunks. chunkType c = method_definition \<longrightarrow> startLine c \<noteq> endLine c"
    using chunkTopLevel_rows by auto
  have "chunkType (methodChunk m) = method_definition"
    "startLine (methodChunk m) = endLine (methodChunk m)"
    using assms(9) by (simp_all add: methodChunk_def)
  with rows have none: "methodChunk m \<notin> set ?chunks"
    by blast
  have "getCollapsedClassDefinition node contents \<in> set (chunkTopLevel contents node)"
    using assms(4) by (simp add: chunkTopLevel_def)
  with assms(3) have skel: "getCollapsedClassDefinition node contents \<in> set ?chunks"
    by auto
  have coll: "\<exists>before after.
                  bodySpans ?si node
                    = before @ (startIndex b - ?si, endIndex b - ?si,
                                ''{ id:'' @ getMethodIdentifier m @ '' }'') # after
                  \<and> content (getCollapsedClassDefinition node contents)
                    = take ?si contents
                      @ replaceSpans (take (startIndex b - ?si) (drop ?si contents)) 0 before
                      @ ''{ id:'' @ getMethodIdentifier m @ '' }''
                      @ replaceSpans ?t (endIndex b - ?si) after"
    if b: "find (\<lambda>n. nodeType n = BLOCK) (children m) = Some b" for b
  proof -
    let ?sp = "(startIndex b - ?si, endIndex b - ?si, ''{ id:'' @ getMethodIdentifier m @ '' }'')"
    from b have "bodySpan ?si m = Some ?sp"
      by (simp add: bodySpan_def)
    with assms(8) have "?sp \<in> set (bodySpans ?si node)"
      by (rule bodySpan_in_bodySpans)
    then obtain before after where split: "bodySpans ?si node = before @ ?sp # after"
      by (auto dest: split_list)
    have chain: "spansChain 0 (endIndex node - ?si) (before @ ?sp # after)"
      using bodySpans_rel_chain [OF assms(5,6)] unfolding split .
    from spansChain_starts [OF chain] have "startIndex b - ?si < endIndex node - ?si"
      by simp
    then have "take (startIndex b - ?si) ?t = take (startIndex b - ?si) (drop ?si contents)"
      by (simp add: min_def)
    then have "content (getCollapsedClassDefinition node contents)
          = take ?si contents
            @ replaceSpans (take (startIndex b - ?si) (drop ?si contents)) 0 before
            @ ''{ id:'' @ getMethodIdentifier m @ '' }''
            @ replaceSpans ?t (endIndex b - ?si) after"
      using skeleton_content [OF assms(5,6)] replaceSpans_split [OF chain, of ?t]
      by (simp add: split)
    with split show ?thesis by blast
  qed
  from out none rows skel coll show ?thesis by blast
qed

theorem single_row_method_witness:
  "providerOf tree_nested ''A.java'' = Some (\<lambda>contents. tree_nested)
   \<and> js_trim src_nested \<noteq> []
   \<and> nested_class \<in> set (children tree_nested)
   \<and> isClassOrInterface nested_class \<and> wfSpans nested_class
   \<and> endIndex nested_class \<le> length src_nested \<and> noConstructors nested_class
   \<and> nested_s \<in> set (reachedMethods nested_class) \<and> startRow nested_s = endRow nested_s
   \<and> (\<exists>chunks. snd (codeChunker (providerOf tree_nested) ''A.java'' src_nested) = Inr chunks
          \<and> methodChunk nested_s \<notin> set chunks
          \<and> getCollapsedClassDefinition nested_class src_nested \<in> set chunks)
   \<and> bodySpans (startIndex nested_class) nested_class
       = [(30, 46, ''{ id:m[3-5] }''), (72, 91, ''{ id:n[7-9] }'')]
         @ (105, 108, ''{ id:s[10-10] }'') # []
   \<and> content (getCollapsedClassDefinition nested_class src_nested)
       = ''package p;\<newline>class A {\<newline>  int x;\<newline>  void m() { id:m[3-5] }\<newline>  class B {\<newline>    void n() { id:n[7-9] }\<newline>    void s() ''
         @ ''{ id:s[10-10] }'' @ ''\<newline>  }\<newline>}''"
proof -
  have h1: "providerOf tree_nested ''A.java'' = Some (\<lambda>contents. tree_nested)"
    by (simp add: providerOf_def)
  have h2: "js_trim src_nested \<noteq> []"
    by code_simp
  have h3: "nested_class \<in> set (children tree_nested)"
    by code_simp
  have h4: "isClassOrInterface nested_class"
    by code_simp
  have h5: "wfSpans nested_class"
    by code_simp
  have h6: "endIndex nested_class \<le> length src_nested"
    by code_simp
  have h7: "noConstructors nested_class"
    by code_simp
  have h8: "nested_s \<in> set (reachedMethods nested_class)"
    by code_simp
  have h9: "startRow nested_s = endRow nested_s"
    by code_simp
  have s: "bodySpans (startIndex nested_class) nested_class
       = [(30, 46, ''{ id:m[3-5] }''), (72, 91, ''{ id:n[7-9] }'')]
         @ (105, 108, ''{ id:s[10-10] }'') # []"
    by code_simp
  have c: "content (getCollapsedClassDefinition nested_class src_nested)
       = ''package p;\<newline>class A {\<newline>  int x;\<newline>  void m() { id:m[3-5] }\<newline>  class B {\<newline>    void n() { id:n[7-9] }\<newline>    void s() ''
         @ ''{ id:s[10-10] }'' @ ''\<newline>  }\<newline>}''"
    by code_simp
  from single_row_method [of "providerOf tree_nested" "''A.java''" "\<lambda>contents. tree_nested"
      src_nested nested_class nested_s, OF h1 h2 h3 h4 h5 h6 h7 h8 h9]
  have "\<exists>chunks. snd (codeChunker (providerOf tree_nested) ''A.java'' src_nested) = Inr chunks
          \<and> methodChunk nested_s \<notin> set chunks
          \<and> getCollapsedClassDefinition nested_class src_nested \<in> set chunks"
    by blast
  with h1 h2 h3 h4 h5 h6 h7 h8 h9 s c show ?thesis
    by - (intro conjI; assumption)
qed

text \<open>
  The claim as it is written takes the rows of the body. The method \<open>f\<close> has its signature
  on row 1 and its body \<open>{ }\<close> on row 2 alone, and it gets a chunk.
\<close>

theorem one_row_body_counterexample:
  "sig_body \<in> set (children sig_method) \<and> nodeType sig_body = BLOCK
   \<and> startRow sig_body = 2 \<and> endRow sig_body = 2
   \<and> codeChunker (providerOf tree_sig) ''A.java'' src_sig
       = ([GetParserForFile ''A.java'', Parse src_sig],
          Inr [\<lparr> content = ''class A {\<newline>  void f()\<newline>  { id:f[1-2] }\<newline>}'',
                  startLine = 0, endLine = 3, methodIdentifier = None,
                  chunkType = class_definition \<rparr>,
               \<lparr> content = ''void f()\<newline>  { }'', startLine = 1, endLine = 2,
                  methodIdentifier = Some ''f[1-2]'', chunkType = method_definition \<rparr>])"
  by code_simp

text \<open>
  Claim C6. The package name should come from a package declaration among the root's direct
  children only. \<^verbatim>\<open>getPackageName\<close> of the chunker searches the whole tree from the root
  with \<^verbatim>\<open>findNodeByType\<close>: in a tree whose root has no package declaration as a child
  and whose method body holds one, it answers with that one, where \<^verbatim>\<open>getPackageName\<close> of
  \<^verbatim>\<open>javaCodeUtil.ts\<close> finds none.
\<close>

theorem package_found_below_root:
  "rootOf [tree_inner_package] inner_package_class = tree_inner_package
   \<and> map nodeType (children tree_inner_package) = [CLASS]
   \<and> getPackageName [tree_inner_package] inner_package_class = ''q''
   \<and> util_getPackageName PACKAGE [tree_inner_package] inner_package_class = None"
  by code_simp

text \<open>
  Claim C7, amended. If the file text is not blank and \<^verbatim>\<open>getParserForFile\<close> yields nothing
  for the path, the chunker raises \<open>Failed to load parser for file\<close> with the path, after
  the one call to the provider and before any chunk.
\<close>

theorem no_parser_fails:
  assumes "getParserForFile filepath = None" and "js_trim contents \<noteq> []"
  shows "codeChunker getParserForFile filepath contents
         = ([GetParserForFile filepath],
            Inl (Error (''Failed to load parser for file '' @ filepath)))"
  using assms by (simp add: codeChunker_def)

theorem no_parser_fails_witness:
  "noProvider ''A.java'' = None \<and> js_trim src_ctor \<noteq> []
   \<and> codeChunker noProvider ''A.java'' src_ctor
       = ([GetParserForFile ''A.java''],
          Inl (Error ''Failed to load parser for file A.java''))"
proof -
  have h1: "noProvider ''A.java'' = None"
    by (simp add: noProvider_def)
  have h2: "js_trim src_ctor \<noteq> []"
    by code_simp
  from no_parser_fails [of noProvider "''A.java''" src_ctor, OF h1 h2] h1 h2 show ?thesis
    by simp
qed

text \<open>
  The claim as it is written holds for every text. On an empty text the chunker returns
  before it asks for a parser: with no parser for the path it ends with no chunk and no
  error.
\<close>

theorem blank_without_parser_counterexample:
  "noProvider ''A.java'' = None \<and> codeChunker noProvider ''A.java'' '''' = ([], Inr [])"
  by code_simp

text \<open>
  Claim C8. For every text that is empty or holds white space only, the chunker returns the
  empty sequence of chunks, raises no error and makes no call to the provider, whatever the
  provider is.
\<close>

theorem blank_input:
  assumes "\<forall>c\<in>set contents. isWhiteSpace c"
  shows "codeChunker getParserForFile filepath contents = ([], Inr [])"
  using all_white_trim [OF assms] by (simp add: codeChunker_def)

theorem blank_input_witness:
  "list_all isWhiteSpace '' \<newline>  ''
   \<and> codeChunker noProvider ''A.java'' '' \<newline>  '' = ([], Inr [])"
proof -
  have l: "list_all isWhiteSpace '' \<newline>  ''"
    by code_simp
  then have h: "\<forall>c\<in>set '' \<newline>  ''. isWhiteSpace c"
    unfolding list_all_iff .
  from blank_input [of "'' \<newline>  ''" noProvider "''A.java''", OF h] l show ?thesis
    by (intro conjI)

qed

text \<open>
  Claim C10. On a tree whose rows are ordered, every \<open>method_definition\<close> chunk that the
  chunker emits has \<open>startLine < endLine\<close> and a method identifier, and every
  \<open>class_definition\<close> chunk has \<open>startLine \<le> endLine\<close> and no method identifier.
\<close>

theorem chunk_lines:
  assumes "\<forall>parser. getParserForFile filepath = Some parser \<longrightarrow> rowsOrdered (parser contents)"
    and "snd (codeChunker getParserForFile filepath contents) = Inr chunks"
    and "c \<in> set chunks"
  shows "(chunkType c = method_definition \<longrightarrow> startLine c < endLine c \<and> methodIdentifier c \<noteq> None)
       \<and> (chunkType c = class_definition \<longrightarrow> startLine c \<le> endLine c \<and> methodIdentifier c = None)"
proof (cases "js_trim contents = []")
  case True
  with assms(2,3) show ?thesis by (simp add: codeChunker_def)
next
  case False
  with assms(2) obtain parser where p: "getParserForFile filepath = Some parser"
    by (auto simp: codeChunker_def split: option.splits)
  let ?root = "parser contents"
  from assms(1) p have ro: "\<forall>n\<in>set (preorder ?root). startRow n \<le> endRow n"
    by (simp add: rowsOrdered_def list_all_iff)
  from False p assms(2,3) obtain top where top: "top \<in> set (children ?root)"
    and c: "c \<in> set (chunkTopLevel contents top)"
    by (auto simp: codeChunker_def Let_def)
  have "subseq (preorder top) (concat (map preorder (children ?root)))"
    using top by (rule subseq_member_concat)
  then have "subseq (preorder top) (preorder ?root)"
    unfolding preorder_node [of ?root] by (rule list_emb_Cons)
  then have sub: "set (preorder top) \<subseteq> set (preorder ?root)"
    by (rule subseq_subset)
  have topin: "top \<in> set (preorder top)"
    by (simp add: preorder_node [of top])
  show ?thesis
  proof (cases "isClassOrInterface top")
    case True
    with c consider "c = getCollapsedClassDefinition top contents"
      | m where "m \<in> set (multiRowMethods top)" "c = methodChunk m"
      by (auto simp: chunkTopLevel_def chunkMethodRecursively_eq)
    then show ?thesis
    proof cases
      case 1
      then show ?thesis by (simp add: getCollapsedClassDefinition_def)
    next
      case 2
      from 2(1) have "m \<in> set (preorder top)"
        using subseq_subset [OF multiRowMethods_subseq [of top]] by blast
      with sub ro have "startRow m \<le> endRow m" by blast
      moreover from 2(1) have "startRow m \<noteq> endRow m" by (simp add: multiRowMethods_def)
      ultimately show ?thesis using 2(2) by (simp add: methodChunk_def)
    qed
  next
    case False
    with c have "c = \<lparr> content = contents, startLine = startRow top, endLine = endRow top,
                       methodIdentifier = None, chunkType = class_definition \<rparr>"
      by (auto simp: chunkTopLevel_def split: if_splits)
    moreover from topin sub ro have "startRow top \<le> endRow top" by blast
    ultimately show ?thesis by simp
  qed
qed

theorem chunk_lines_witness:
  "providerOf tree_nested ''A.java'' = Some (\<lambda>contents. tree_nested)
   \<and> rowsOrdered tree_nested
   \<and> snd (codeChunker (providerOf tree_nested) ''A.java'' src_nested)
       = Inr (getCollapsedClassDefinition nested_class src_nested
              # chunkMethodRecursively nested_class)
   \<and> hd (chunkMethodRecursively nested_class)
       \<in> set (getCollapsedClassDefinition nested_class src_nested
               # chunkMethodRecursively nested_class)
   \<and> chunkType (hd (chunkMethodRecursively nested_class)) = method_definition
   \<and> startLine (hd (chunkMethodRecursively nested_class)) = 3
   \<and> endLine (hd (chunkMethodRecursively nested_class)) = 5
   \<and> startLine (hd (chunkMethodRecursively nested_class))
       < endLine (hd (chunkMethodRecursively nested_class))
   \<and> methodIdentifier (hd (chunkMethodRecursively nested_class)) \<noteq> None"
proof -
  have r: "rowsOrdered tree_nested"
    by code_simp
  then have h1: "\<forall>parser. providerOf tree_nested ''A.java'' = Some parser
                  \<longrightarrow> rowsOrdered (parser src_nested)"
    by (auto simp: providerOf_def)
  have h2: "snd (codeChunker (providerOf tree_nested) ''A.java'' src_nested)
       = Inr (getCollapsedClassDefinition nested_class src_nested
              # chunkMethodRecursively nested_class)"
    by code_simp
  have e: "hd (chunkMethodRecursively nested_class)
           = \<lparr> content = ''void m() {\<newline>    run();\<newline>  }'', startLine = 3, endLine = 5,
               methodIdentifier = Some ''m[3-5]'', chunkType = method_definition \<rparr>"
    by code_simp
  have ne: "chunkMethodRecursively nested_class \<noteq> []"
    by code_simp
  then have h3: "hd (chunkMethodRecursively nested_class)
       \<in> set (getCollapsedClassDefinition nested_class src_nested
               # chunkMethodRecursively nested_class)"
    by simp
  from chunk_lines [of "providerOf tree_nested" "''A.java''" src_nested, OF h1 h2 h3]
    r h2 h3 e show ?thesis
    by (simp add: providerOf_def)
qed

end
